theory Spec2Isabelle
  imports Complex_Main "HOL-Library.Sublist"
begin

section \<open>The HH42 thermometer reader (src/index.ts)\<close>

text \<open>
  The class \<open>HH42\<close> owns one serial connection, a line buffer and a poll timer. This
  theory embeds its methods as functions on an explicit state and proves the properties
  the specification states about them.
\<close>

subsection \<open>JavaScript strings and the string primitives the code calls\<close>

text \<open>
  A \<open>Buffer\<close> is a sequence of octets and HOL's \<open>char\<close> is an octet, so a chunk of
  received data is a \<open>char list\<close>. \<open>data.toString('ascii')\<close> maps every octet to one
  character after clearing its highest bit, so every character of the line buffer is
  below 128 and an 8-bit character type is enough for the buffer as well.
\<close>

definition ascii_char :: "char \<Rightarrow> char" where
  "ascii_char c = (case c of Char b0 b1 b2 b3 b4 b5 b6 b7 \<Rightarrow> Char b0 b1 b2 b3 b4 b5 b6 False)"

definition toString_ascii :: "string \<Rightarrow> string" where
  "toString_ascii data = map ascii_char data"

definition CR :: char where
  "CR = CHR 0x0D"

definition LF :: char where
  "LF = CHR 0x0A"

definition CRLF :: string where
  "CRLF = [CR, LF]"

text \<open>
  White space as \<open>String.prototype.trim\<close>, the class \<open>\s\<close> and \<open>parseFloat\<close> know it,
  restricted to the code units below 256: TAB, LF, VT, FF, CR, SPACE and NBSP.
\<close>

definition isWhitespace :: "char \<Rightarrow> bool" where
  "isWhitespace c = (c \<in> set [CHR 0x09, CHR 0x0A, CHR 0x0B, CHR 0x0C, CHR 0x0D, CHR 0x20, CHR 0xA0])"

text \<open>The class \<open>\d\<close>: the ten ASCII digits.\<close>

definition isDigit :: "char \<Rightarrow> bool" where
  "isDigit c = (c \<in> set ''0123456789'')"

text \<open>\<open>s.trim()\<close>\<close>

definition trim :: "string \<Rightarrow> string" where
  "trim s = rev (dropWhile isWhitespace (rev (dropWhile isWhitespace s)))"

text \<open>\<open>s.slice(-1)\<close>: the last character as a string, the empty string for an empty one.\<close>

definition slice_last :: "string \<Rightarrow> string" where
  "slice_last s = drop (length s - 1) s"

text \<open>
  \<open>s.split('\r\n')\<close>: the segments between the occurrences of the separator, found from
  left to right; an empty string gives one empty segment.
\<close>

fun split_CRLF :: "string \<Rightarrow> string list" where
  "split_CRLF [] = [[]]"
| "split_CRLF [c] = [[c]]"
| "split_CRLF (c # d # s) =
     (if c = CR \<and> d = LF then [] # split_CRLF s
      else (c # hd (split_CRLF (d # s))) # tl (split_CRLF (d # s)))"

text \<open>
  \<open>lines.pop()\<close> removes the last element of the array and returns it, or returns
  \<open>undefined\<close> (here \<open>None\<close>) from an empty array.
\<close>

definition pop :: "'a list \<Rightarrow> 'a option \<times> 'a list" where
  "pop xs = (if xs = [] then (None, []) else (Some (last xs), butlast xs))"

text \<open>
  \<open>x || d\<close>: the value \<open>d\<close> when \<open>x\<close> is falsy. An absent value (\<open>undefined\<close>) is \<open>None\<close>;
  the falsy string is the empty one, the falsy number is zero.
\<close>

definition or_string :: "string option \<Rightarrow> string \<Rightarrow> string" where
  "or_string x d = (case x of None \<Rightarrow> d | Some s \<Rightarrow> if s = [] then d else s)"

definition or_number :: "int option \<Rightarrow> int \<Rightarrow> int" where
  "or_number x d = (case x of None \<Rightarrow> d | Some n \<Rightarrow> if n = 0 then d else n)"

subsection \<open>The regular expression of \<open>processBuffer\<close>\<close>

text \<open>
  \<open>/^[-\s]?\d+\.\d+\s?[CF]?$/\<close> is a sequence of character classes, each taken once,
  at most once (\<open>?\<close>) or at least once (\<open>+\<close>), anchored at both ends. \<open>regex_test\<close>
  tries every way to distribute the string over the items, as the backtracking matcher
  behind \<open>RegExp.prototype.test\<close> does.
\<close>

datatype quantifier = One | Optional | OneOrMore

type_synonym regex = "((char \<Rightarrow> bool) \<times> quantifier) list"

fun regex_test :: "regex \<Rightarrow> string \<Rightarrow> bool" where
  "regex_test [] s = (s = [])"
| "regex_test ((cls, One) # r) [] = False"
| "regex_test ((cls, One) # r) (c # cs) = (cls c \<and> regex_test r cs)"
| "regex_test ((cls, Optional) # r) [] = regex_test r []"
| "regex_test ((cls, Optional) # r) (c # cs) =
     ((cls c \<and> regex_test r cs) \<or> regex_test r (c # cs))"
| "regex_test ((cls, OneOrMore) # r) [] = False"
| "regex_test ((cls, OneOrMore) # r) (c # cs) =
     (cls c \<and> (regex_test ((cls, OneOrMore) # r) cs \<or> regex_test r cs))"

definition temperature_regex :: regex where
  "temperature_regex =
     [(\<lambda>c. c = CHR ''-'' \<or> isWhitespace c, Optional),
      (isDigit, OneOrMore),
      (\<lambda>c. c = CHR ''.'', One),
      (isDigit, OneOrMore),
      (isWhitespace, Optional),
      (\<lambda>c. c = CHR ''C'' \<or> c = CHR ''F'', Optional)]"

subsection \<open>Numbers and \<open>parseFloat\<close>\<close>

text \<open>
  A JavaScript number is a binary64 float: not a number, an infinity with its sign, or a
  sign and a magnitude, a rational that binary64 represents exactly (zero has a sign too).
\<close>

datatype sign = Plus | Minus

datatype number = NaN | Infinity sign | Finite sign rat

text \<open>
  The number of binary digits of a positive integer, and with it the exponent of a
  positive rational \<open>p / q\<close>: the integer \<open>e\<close> with \<open>2 ^ e \<le> p / q < 2 ^ (e + 1)\<close>. The
  bit lengths of \<open>p\<close> and \<open>q\<close> give it up to one.
\<close>

function bit_length :: "int \<Rightarrow> nat" where
  "bit_length n = (if n \<le> 0 then 0 else Suc (bit_length (n div 2)))"
  by pat_completeness auto

termination
  by (relation "measure nat") auto

declare bit_length.simps [simp del]

definition binary_exponent :: "int \<Rightarrow> int \<Rightarrow> int" where
  "binary_exponent p q =
     (let e = int (bit_length p) - int (bit_length q)
      in if (if 0 \<le> e then p < q * 2 ^ nat e else p * 2 ^ nat (- e) < q) then e - 1 else e)"

text \<open>The integer nearest to \<open>a / b\<close>, for \<open>b > 0\<close>; of two equally near, the even one.\<close>

definition round_half_even :: "int \<Rightarrow> int \<Rightarrow> int" where
  "round_half_even a b =
     (let f = a div b; r = a mod b
      in if 2 * r < b then f else if b < 2 * r then f + 1 else if even f then f else f + 1)"

text \<open>
  The number for a sign and an exact magnitude \<open>p / q\<close>, with \<open>p \<ge> 0\<close> and \<open>q > 0\<close>: the
  magnitude is rounded to the nearest multiple of the spacing of the floats around it,
  \<open>2 ^ (e - 52)\<close> where \<open>e\<close> is its exponent and at least \<open>- 1022\<close> (below \<open>2 ^ - 1022\<close>
  the floats are evenly spaced, \<open>2 ^ - 1074\<close> apart), ties going to the even multiple; a
  result of \<open>2 ^ 1024\<close> or more is an infinity (below exponent 52 the result is under
  \<open>2 ^ 53\<close>). A magnitude that rounds to zero keeps its sign.
\<close>

definition binary64 :: "sign \<Rightarrow> int \<Rightarrow> int \<Rightarrow> number" where
  "binary64 sg p q =
     (if p = 0 then Finite sg 0
      else
        (let e = max (binary_exponent p q) (- 1022);
             n = (if 52 \<le> e then round_half_even p (q * 2 ^ nat (e - 52))
                  else round_half_even (p * 2 ^ nat (52 - e)) q)
         in if 52 \<le> e \<and> 2 ^ 1024 \<le> n * 2 ^ nat (e - 52) then Infinity sg
            else Finite sg (rat_of_int n * 2 powi (e - 52))))"

text \<open>
  \<open>parseFloat\<close> skips leading white space and takes the longest prefix that is a
  \<open>StrDecimalLiteral\<close>: a sign, then \<open>Infinity\<close> or digits with an optional fraction and
  an optional exponent. The value of the literal is its digits, read as one integer, times
  ten to the power of its exponent less the number of its fraction digits; the result is
  the number for that value with the sign of the literal, or \<open>NaN\<close> when there is no such
  prefix.
\<close>

definition digits_value :: "string \<Rightarrow> int" where
  "digits_value ds = foldl (\<lambda>n c. 10 * n + (of_char c - 48)) 0 ds"

definition exponent_value :: "string \<Rightarrow> int" where
  "exponent_value r =
     (if take 1 r = ''e'' \<or> take 1 r = ''E'' then
        (let s = drop 1 r;
             ds = takeWhile isDigit (if take 1 s = ''-'' \<or> take 1 s = ''+'' then drop 1 s else s)
         in if take 1 s = ''-'' then - digits_value ds else digits_value ds)
      else 0)"

definition parseFloat :: "string \<Rightarrow> number" where
  "parseFloat inputString =
     (let trimmedString = dropWhile isWhitespace inputString;
          sg = (if take 1 trimmedString = ''-'' then Minus else Plus);
          unsigned = (if take 1 trimmedString = ''-'' \<or> take 1 trimmedString = ''+''
                      then drop 1 trimmedString else trimmedString);
          intPart = takeWhile isDigit unsigned;
          afterInt = dropWhile isDigit unsigned;
          fracPart = (if take 1 afterInt = ''.'' then takeWhile isDigit (drop 1 afterInt) else []);
          afterFrac = (if take 1 afterInt = ''.'' then dropWhile isDigit (drop 1 afterInt) else afterInt);
          mantissa = digits_value (intPart @ fracPart);
          exponent = exponent_value afterFrac - int (length fracPart)
      in if take 8 unsigned = ''Infinity'' then Infinity sg
         else if intPart = [] \<and> fracPart = [] then NaN
         else if 0 \<le> exponent then binary64 sg (mantissa * 10 ^ nat exponent) 1
         else binary64 sg mantissa (10 ^ nat (- exponent)))"

subsection \<open>The state: the object, its ports, its timers and what it has emitted\<close>

text \<open>
  The options of \<open>initializeSerialPort\<close>: every field may be absent. The numbers of a
  configuration are integers here.
\<close>

record HH42Options =
  opt_baudRate :: "int option"
  opt_dataBits :: "int option"
  opt_stopBits :: "int option"
  opt_parity :: "string option"

text \<open>
  A \<open>SerialPort\<close> object of the serialport library, with the configuration it was
  created with. The constructor starts to open the port and returns at once; the port
  reports \<open>isOpen\<close> from the moment its open event fires until \<open>close()\<close> is called on
  it. \<open>rts\<close> is the control line that \<open>set({ rts: true })\<close> raises.
\<close>

datatype port_status = Opening | Open | Closed

record serialport =
  path :: string
  baudRate :: int
  dataBits :: int
  stopBits :: int
  parity :: string
  status :: port_status
  rts :: bool

definition isOpen :: "serialport \<Rightarrow> bool" where
  "isOpen p = (status p = Open)"

record reading =
  temperatureValue :: number
  unit :: string

datatype event =
    portOpenedTemperature string
  | serialErrorTemperature string
  | serialDataTemperature reading

text \<open>
  A repeating timer of \<open>setInterval\<close>: its handle, its period and the time, in
  milliseconds, at which it fires next. The only callback the class ever schedules is
  the poll command, so a timer does not carry its callback.
\<close>

record interval =
  handle :: nat
  delay :: nat
  due :: nat

text \<open>
  The first three fields are the fields of the class. \<open>portTemperature\<close> and
  \<open>readingInterval\<close> are references (\<open>None\<close> is \<open>null\<close>): an index into \<open>ports\<close>,
  the port objects created so far, and the handle of a timer. The other fields are the
  surroundings: the active timers, the number of handles given out, the clock, the events
  emitted, the \<open>write\<close> calls made (time, port, data) and the console.
\<close>

record world =
  portTemperature :: "nat option"
  buffer :: string
  readingInterval :: "nat option"
  ports :: "serialport list"
  intervals :: "interval list"
  handles :: nat
  now :: nat
  emitted :: "event list"
  written :: "(nat \<times> nat \<times> string) list"
  console :: "string list"

text \<open>A freshly constructed \<open>HH42\<close> at time 0.\<close>

definition new_HH42 :: world where
  "new_HH42 = \<lparr>portTemperature = None, buffer = [], readingInterval = None, ports = [],
     intervals = [], handles = 0, now = 0, emitted = [], written = [], console = []\<rparr>"

definition emit :: "event \<Rightarrow> world \<Rightarrow> world" where
  "emit e w = w\<lparr>emitted := emitted w @ [e]\<rparr>"

definition console_print :: "string \<Rightarrow> world \<Rightarrow> world" where
  "console_print s w = w\<lparr>console := console w @ [s]\<rparr>"

definition setInterval :: "nat \<Rightarrow> world \<Rightarrow> nat \<times> world" where
  "setInterval ms w =
     (handles w,
      w\<lparr>intervals := intervals w @ [\<lparr>handle = handles w, delay = ms, due = now w + ms\<rparr>],
        handles := handles w + 1\<rparr>)"

definition clearInterval :: "nat \<Rightarrow> world \<Rightarrow> world" where
  "clearInterval h w = w\<lparr>intervals := filter (\<lambda>t. handle t \<noteq> h) (intervals w)\<rparr>"

definition new_SerialPort :: "serialport \<Rightarrow> world \<Rightarrow> nat \<times> world" where
  "new_SerialPort p w = (length (ports w), w\<lparr>ports := ports w @ [p]\<rparr>)"

definition port_close :: "nat \<Rightarrow> world \<Rightarrow> world" where
  "port_close p w = w\<lparr>ports := (ports w)[p := (ports w ! p)\<lparr>status := Closed\<rparr>]\<rparr>"

definition port_set_rts :: "nat \<Rightarrow> world \<Rightarrow> world" where
  "port_set_rts p w = w\<lparr>ports := (ports w)[p := (ports w ! p)\<lparr>rts := True\<rparr>]\<rparr>"

definition port_write :: "nat \<Rightarrow> string \<Rightarrow> world \<Rightarrow> world" where
  "port_write p s w = w\<lparr>written := written w @ [(now w, p, s)]\<rparr>"

text \<open>\<open>this.portTemperature && this.portTemperature.isOpen\<close>\<close>

definition portTemperature_isOpen :: "world \<Rightarrow> bool" where
  "portTemperature_isOpen w =
     (case portTemperature w of None \<Rightarrow> False
      | Some p \<Rightarrow> p < length (ports w) \<and> isOpen (ports w ! p))"

subsection \<open>The methods of \<open>HH42\<close>\<close>

definition stopTemperatureReading :: "world \<Rightarrow> world" where
  "stopTemperatureReading w =
     (case readingInterval w of None \<Rightarrow> w
      | Some h \<Rightarrow> (clearInterval h w)\<lparr>readingInterval := None\<rparr>)"

definition enterHostMode :: "world \<Rightarrow> world" where
  "enterHostMode w =
     (if portTemperature_isOpen w then port_set_rts (the (portTemperature w)) w else w)"

text \<open>The callback of the poll timer: \<open>this.portTemperature?.write('T\r\n')\<close>.\<close>

definition poll :: "world \<Rightarrow> world" where
  "poll w = (case portTemperature w of None \<Rightarrow> w | Some p \<Rightarrow> port_write p (''T'' @ CRLF) w)"

definition requestTemperatureReading :: "world \<Rightarrow> world" where
  "requestTemperatureReading w =
     (if portTemperature_isOpen w
      then (case setInterval 524 w of (h, w') \<Rightarrow> w'\<lparr>readingInterval := Some h\<rparr>)
      else w)"

text \<open>The body of the loop of \<open>processBuffer\<close>, for one line.\<close>

definition process_line :: "string \<Rightarrow> world \<Rightarrow> world" where
  "process_line line w =
     (let trimmedLine = trim line in
      if trimmedLine = ''>'' \<or> trimmedLine = ''T'' then w
      else if regex_test temperature_regex trimmedLine then
        emit (serialDataTemperature
               \<lparr>temperatureValue = parseFloat trimmedLine,
                unit = (if slice_last trimmedLine = ''C'' \<or> slice_last trimmedLine = ''F''
                        then slice_last trimmedLine else [])\<rparr>) w
      else w)"

definition processBuffer :: "world \<Rightarrow> world" where
  "processBuffer w =
     (case pop (split_CRLF (buffer w)) of (popped, lines) \<Rightarrow>
        foldl (\<lambda>w line. process_line line w) (w\<lparr>buffer := or_string popped []\<rparr>) lines)"

text \<open>The three reactions \<open>initializeSerialPort\<close> registers on the port it creates.\<close>

definition on_data :: "string \<Rightarrow> world \<Rightarrow> world" where
  "on_data data w = processBuffer (w\<lparr>buffer := buffer w @ toString_ascii data\<rparr>)"

definition on_open :: "string \<Rightarrow> world \<Rightarrow> world" where
  "on_open portName w =
     emit (portOpenedTemperature portName)
       (requestTemperatureReading (enterHostMode (console_print ''Port opened successfully'' w)))"

definition on_error :: "string \<Rightarrow> world \<Rightarrow> world" where
  "on_error message w =
     emit (serialErrorTemperature message) (console_print (''Serial port error: '' @ message) w)"

definition initializeSerialPort :: "string \<Rightarrow> HH42Options \<Rightarrow> world \<Rightarrow> world" where
  "initializeSerialPort portName options w =
     (let w1 = stopTemperatureReading w;
          w2 = (if portTemperature_isOpen w1 then port_close (the (portTemperature w1)) w1 else w1)
      in case new_SerialPort
                \<lparr>path = portName,
                 baudRate = or_number (opt_baudRate options) 9600,
                 dataBits = or_number (opt_dataBits options) 8,
                 stopBits = or_number (opt_stopBits options) 1,
                 parity = or_string (opt_parity options) ''none'',
                 status = Opening, rts = False\<rparr> w2 of
           (p, w3) \<Rightarrow> w3\<lparr>portTemperature := Some p\<rparr>)"

text \<open>
  \<open>getAvailablePorts\<close> awaits \<open>SerialPort.list()\<close>, a promise that is fulfilled with the
  descriptions of the attached ports or rejected. The function takes the way that promise
  settles and returns the way its own promise settles, with what it printed.
\<close>

datatype 'a settled = Fulfilled 'a | Rejected string

record PortInfo =
  info_path :: string
  manufacturer :: "string option"

definition getAvailablePorts :: "PortInfo list settled \<Rightarrow> string list settled \<times> string list" where
  "getAvailablePorts listed =
     (case listed of
        Fulfilled infos \<Rightarrow> (Fulfilled (map info_path infos), [])
      | Rejected err \<Rightarrow> (Fulfilled [], [''Error getting available ports: '' @ err]))"

subsection \<open>What the surroundings do\<close>

text \<open>
  A port that was being opened finishes opening: it reports open and its open reaction
  runs, with the port name \<open>initializeSerialPort\<close> was called with.
\<close>

definition port_opens :: "nat \<Rightarrow> world \<Rightarrow> world" where
  "port_opens p w =
     (if p < length (ports w) \<and> status (ports w ! p) = Opening
      then on_open (path (ports w ! p))
             (w\<lparr>ports := (ports w)[p := (ports w ! p)\<lparr>status := Open\<rparr>]\<rparr>)
      else w)"

text \<open>Data arrives on an open port: its data reaction runs.\<close>

definition port_receives :: "nat \<Rightarrow> string \<Rightarrow> world \<Rightarrow> world" where
  "port_receives p data w =
     (if p < length (ports w) \<and> isOpen (ports w ! p) then on_data data w else w)"

text \<open>Chunks delivered one after the other, each in its own turn of the event loop.\<close>

definition deliver :: "string list \<Rightarrow> world \<Rightarrow> world" where
  "deliver chunks w = foldl (\<lambda>w data. on_data data w) w chunks"

text \<open>
  One millisecond passes: every active timer that is due fires its callback, in the
  order the timers were created, and is due again one period later.
\<close>

definition millisecond :: "world \<Rightarrow> world" where
  "millisecond w =
     (let t = now w + 1;
          w1 = foldl (\<lambda>w i. poll w) (w\<lparr>now := t\<rparr>) (filter (\<lambda>i. due i = t) (intervals w))
      in w1\<lparr>intervals := map (\<lambda>i. if due i = t then i\<lparr>due := t + delay i\<rparr> else i) (intervals w)\<rparr>)"

primrec elapse :: "nat \<Rightarrow> world \<Rightarrow> world" where
  "elapse 0 w = w"
| "elapse (Suc n) w = elapse n (millisecond w)"

subsection \<open>Notions used to state the properties\<close>

text \<open>\<open>lines.join('\r\n')\<close>, the inverse of the split.\<close>

fun join_CRLF :: "string list \<Rightarrow> string" where
  "join_CRLF [] = []"
| "join_CRLF [x] = x"
| "join_CRLF (x # y # zs) = x @ CRLF @ join_CRLF (y # zs)"

text \<open>The reading events the loop body emits for one line.\<close>

definition line_events :: "string \<Rightarrow> event list" where
  "line_events line = emitted (process_line line new_HH42)"

text \<open>
  The pattern of the claim, in its words: an optional leading sign or white space, one or
  more digits, a decimal point, one or more digits, optional trailing white space, an
  optional trailing single unit letter \<open>C\<close> or \<open>F\<close>. \<open>claimed_parts\<close> says that five
  strings are such parts; a sign is a plus or a minus character.
\<close>

definition at_most_one :: "(char \<Rightarrow> bool) \<Rightarrow> string \<Rightarrow> bool" where
  "at_most_one cls s = (s = [] \<or> (length s = 1 \<and> list_all cls s))"

definition one_or_more :: "(char \<Rightarrow> bool) \<Rightarrow> string \<Rightarrow> bool" where
  "one_or_more cls s = (s \<noteq> [] \<and> list_all cls s)"

definition claimed_parts :: "string \<Rightarrow> string \<Rightarrow> string \<Rightarrow> string \<Rightarrow> string \<Rightarrow> bool" where
  "claimed_parts lead ip fp ws u =
     ((lead = ''+'' \<or> lead = ''-'' \<or> list_all isWhitespace lead) \<and>
      one_or_more isDigit ip \<and>
      one_or_more isDigit fp \<and>
      list_all isWhitespace ws \<and>
      at_most_one (\<lambda>c. c = CHR ''C'' \<or> c = CHR ''F'') u)"

text \<open>
  The pattern the code tests: at most one leading character, a minus or a white-space
  character; one or more digits, a decimal point, one or more digits; at most one
  white-space character; at most one unit letter \<open>C\<close> or \<open>F\<close>. A string matches when it
  is made of such parts around a decimal point.
\<close>

definition pattern_parts :: "string \<Rightarrow> string \<Rightarrow> string \<Rightarrow> string \<Rightarrow> string \<Rightarrow> bool" where
  "pattern_parts lead ip fp ws u =
     (at_most_one (\<lambda>c. c = CHR ''-'' \<or> isWhitespace c) lead \<and>
      one_or_more isDigit ip \<and>
      one_or_more isDigit fp \<and>
      at_most_one isWhitespace ws \<and>
      at_most_one (\<lambda>c. c = CHR ''C'' \<or> c = CHR ''F'') u)"

definition matches_pattern :: "string \<Rightarrow> bool" where
  "matches_pattern s =
     (\<exists>lead ip fp ws u. s = lead @ ip @ ''.'' @ fp @ ws @ u \<and> pattern_parts lead ip fp ws u)"

text \<open>
  The standard decimal parse of a numeric portion: the number for its sign and for the
  decimal number written by the digits before and after the point.
\<close>

definition decimal_value :: "string \<Rightarrow> string \<Rightarrow> string \<Rightarrow> number" where
  "decimal_value lead ip fp =
     binary64 (if lead = ''-'' then Minus else Plus) (digits_value (ip @ fp)) (10 ^ length fp)"

text \<open>The two lines of the specification's example, as they arrive.\<close>

definition two_lines :: string where
  "two_lines = ''23.5C'' @ CRLF @ ''-1.0F'' @ CRLF"

text \<open>Options that leave every field out, and options whose every field is falsy.\<close>

definition no_options :: HH42Options where
  "no_options = \<lparr>opt_baudRate = None, opt_dataBits = None, opt_stopBits = None, opt_parity = None\<rparr>"

definition falsy_options :: HH42Options where
  "falsy_options = \<lparr>opt_baudRate = Some 0, opt_dataBits = Some 0, opt_stopBits = Some 0, opt_parity = Some []\<rparr>"

text \<open>
  Two scenarios. \<open>opened\<close>: a new object is initialised on one port, which then finishes
  opening. \<open>twice\<close>: a new object is initialised on one port and at once on another,
  before the first has finished opening; then the second port finishes opening, then the
  first. \<open>twice_in_order\<close> is the same with the first port opening first.
\<close>

definition opened :: world where
  "opened = port_opens 0 (initializeSerialPort ''COM1'' no_options new_HH42)"

definition twice :: world where
  "twice = port_opens 0 (port_opens 1
             (initializeSerialPort ''COM2'' no_options (initializeSerialPort ''COM1'' no_options new_HH42)))"

definition twice_in_order :: world where
  "twice_in_order = port_opens 1 (port_opens 0
             (initializeSerialPort ''COM2'' no_options (initializeSerialPort ''COM1'' no_options new_HH42)))"

section \<open>Properties\<close>

text \<open>The definitions that evaluate a line and a number on a concrete input.\<close>

lemmas number_eval = binary64_def binary_exponent_def round_half_even_def bit_length.simps Let_def

lemmas line_eval = line_events_def process_line_def trim_def isWhitespace_def temperature_regex_def
  isDigit_def parseFloat_def digits_value_def exponent_value_def slice_last_def emit_def new_HH42_def

subsection \<open>Splitting into lines\<close>

lemma split_CRLF_nonempty: "split_CRLF s \<noteq> []"
  by (induction s rule: split_CRLF.induct) auto

lemma split_CRLF_Cons:
  "split_CRLF (c # s) =
     (if c = CR \<and> s \<noteq> [] \<and> hd s = LF then [] # split_CRLF (tl s)
      else (c # hd (split_CRLF s)) # tl (split_CRLF s))"
  by (cases s) auto

lemma split_CRLF_single:
  "split_CRLF s = [h] \<Longrightarrow> h = s"
proof (induction s arbitrary: h rule: split_CRLF.induct)
  case (3 c d s)
  let ?S = "split_CRLF (d # s)"
  from "3.prems" have no: "\<not> (c = CR \<and> d = LF)"
    by (auto simp: split_CRLF_nonempty)
  with "3.prems" have h: "h = c # hd ?S" and t: "tl ?S = []"
    by auto
  from t have "?S = [hd ?S]"
    by (metis list.collapse split_CRLF_nonempty)
  with "3.IH" no have "hd ?S = d # s"
    by blast
  with h show ?case by simp
qed auto

lemma split_CRLF_append:
  "split_CRLF (x @ y) = butlast (split_CRLF x) @ split_CRLF (last (split_CRLF x) @ y)"
proof (induction x rule: split_CRLF.induct)
  case 1
  show ?case by simp
next
  case (2 c)
  show ?case by simp
next
  case (3 c d s)
  show ?case
  proof (cases "c = CR \<and> d = LF")
    case True
    with 3 show ?thesis by (simp add: split_CRLF_nonempty)
  next
    case False
    let ?S = "split_CRLF (d # s)"
    have ih: "split_CRLF ((d # s) @ y) = butlast ?S @ split_CRLF (last ?S @ y)"
      using 3 False by blast
    have lhs: "split_CRLF ((c # d # s) @ y)
               = (c # hd (split_CRLF ((d # s) @ y))) # tl (split_CRLF ((d # s) @ y))"
      using False by simp
    have sx: "split_CRLF (c # d # s) = (c # hd ?S) # tl ?S"
      using False by simp
    show ?thesis
    proof (cases "tl ?S = []")
      case True
      then have S: "?S = [d # s]"
        by (metis split_CRLF_single list.collapse split_CRLF_nonempty)
      show ?thesis
        unfolding sx S by simp
    next
      case nonempty: False
      then obtain h g T where S: "?S = h # g # T"
        by (metis list.collapse list.sel(2))
      have "butlast ?S @ split_CRLF (last ?S @ y) = h # (butlast (g # T) @ split_CRLF (last (g # T) @ y))"
        unfolding S by simp
      then show ?thesis
        unfolding lhs ih sx unfolding S by simp
    qed
  qed
qed


lemma join_split_CRLF: "join_CRLF (split_CRLF s) = s"
proof (induction s rule: split_CRLF.induct)
  case (3 c d s)
  let ?S = "split_CRLF (d # s)"
  obtain h T where S: "?S = h # T"
    by (meson list.exhaust split_CRLF_nonempty)
  obtain g U where S': "split_CRLF s = g # U"
    by (meson list.exhaust split_CRLF_nonempty)
  show ?case
  proof (cases "c = CR \<and> d = LF")
    case True
    with 3 S' show ?thesis by (simp add: CRLF_def)
  next
    case False
    with 3 have "join_CRLF ?S = d # s" by blast
    with False S show ?thesis by (cases T) auto
  qed
qed auto

lemma join_CRLF_snoc: "xs \<noteq> [] \<Longrightarrow> join_CRLF (xs @ [t]) = join_CRLF xs @ CRLF @ t"
  by (induction xs rule: join_CRLF.induct) auto

lemma sublist_CRLF_Cons:
  "sublist CRLF (c # s) \<longleftrightarrow> (c = CR \<and> s \<noteq> [] \<and> hd s = LF) \<or> sublist CRLF s"
  by (cases s) (auto simp: CRLF_def sublist_Cons_right)

lemma split_CRLF_segments: "seg \<in> set (split_CRLF s) \<Longrightarrow> \<not> sublist CRLF seg"
proof (induction s arbitrary: seg rule: split_CRLF.induct)
  case 1
  then show ?case by (simp add: CRLF_def)
next
  case (2 c)
  then show ?case by (simp add: CRLF_def sublist_Cons_right)
next
  case (3 c d s)
  let ?S = "split_CRLF (d # s)"
  show ?case
  proof (cases "c = CR \<and> d = LF")
    case True
    with 3 show ?thesis by (auto simp: CRLF_def)
  next
    case False
    have S: "?S = hd ?S # tl ?S"
      by (simp add: split_CRLF_nonempty)
    have ih: "\<And>g. g \<in> set ?S \<Longrightarrow> \<not> sublist CRLF g"
      using 3 False by blast
    from "3.prems" False have "seg = c # hd ?S \<or> seg \<in> set (tl ?S)"
      by auto
    then show ?thesis
    proof
      assume seg: "seg = c # hd ?S"
      have "hd ?S \<in> set ?S" by (simp add: split_CRLF_nonempty)
      then have a: "\<not> sublist CRLF (hd ?S)" using ih by blast
      have b: "hd ?S \<noteq> [] \<Longrightarrow> hd (hd ?S) = d"
        by (auto simp: split_CRLF_Cons split: if_splits)
      show ?thesis
        unfolding seg sublist_CRLF_Cons using a b False by auto
    next
      assume "seg \<in> set (tl ?S)"
      then have "seg \<in> set ?S" by (metis S list.set_intros(2))
      then show ?thesis using ih by blast
    qed
  qed
qed

lemma split_CRLF_no_CRLF: "\<not> sublist CRLF s \<Longrightarrow> split_CRLF s = [s]"
proof (induction s rule: split_CRLF.induct)
  case (3 c d s)
  from "3.prems" have no: "\<not> (c = CR \<and> d = LF)" and sub: "\<not> sublist CRLF (d # s)"
    by (auto simp: sublist_CRLF_Cons)
  with "3.IH" have "split_CRLF (d # s) = [d # s]" by blast
  with no show ?case by simp
qed auto

lemma last_split_CRLF_no_CRLF: "\<not> sublist CRLF (last (split_CRLF s))"
  by (rule split_CRLF_segments [of _ s]) (simp add: split_CRLF_nonempty)

lemma three_chunks: "concat [take j s, take k (drop j s), drop k (drop j s)] = s"
  by (simp only: concat.simps append_Nil2 append_take_drop_id)

lemma process_line_eq: "process_line line w = w\<lparr>emitted := emitted w @ line_events line\<rparr>"
  by (simp add: process_line_def line_events_def emit_def Let_def new_HH42_def)

lemma line_events_at_most_one: "length (line_events line) \<le> 1"
  by (simp add: line_events_def process_line_def Let_def emit_def new_HH42_def)

lemma foldl_process_line:
  "foldl (\<lambda>w line. process_line line w) w ls = w\<lparr>emitted := emitted w @ concat (map line_events ls)\<rparr>"
proof (induction ls arbitrary: w)
  case Nil
  show ?case by simp
next
  case (Cons l ls)
  show ?case
    unfolding foldl_Cons Cons.IH by (simp add: process_line_eq)
qed

lemma processBuffer_eq:
  "processBuffer w =
     w\<lparr>buffer := last (split_CRLF (buffer w)),
       emitted := emitted w @ concat (map line_events (butlast (split_CRLF (buffer w))))\<rparr>"
  by (simp add: processBuffer_def pop_def split_CRLF_nonempty or_string_def foldl_process_line)

lemma on_data_eq:
  "on_data data w =
     w\<lparr>buffer := last (split_CRLF (buffer w @ toString_ascii data)),
       emitted := emitted w @ concat (map line_events (butlast (split_CRLF (buffer w @ toString_ascii data))))\<rparr>"
  by (simp add: on_data_def processBuffer_eq)

lemma deliver_eq:
  "\<not> sublist CRLF (buffer w) \<Longrightarrow>
   deliver chunks w =
     w\<lparr>buffer := last (split_CRLF (buffer w @ toString_ascii (concat chunks))),
       emitted := emitted w @ concat (map line_events (butlast (split_CRLF (buffer w @ toString_ascii (concat chunks)))))\<rparr>"
proof (induction chunks arbitrary: w)
  case Nil
  then show ?case
    by (simp add: deliver_def toString_ascii_def split_CRLF_no_CRLF)
next
  case (Cons c cs)
  let ?a = "toString_ascii c" and ?r = "toString_ascii (concat cs)"
  let ?S = "split_CRLF (buffer w @ ?a)"
  let ?w1 = "on_data c w"
  have b1: "buffer ?w1 = last ?S" and e1: "emitted ?w1 = emitted w @ concat (map line_events (butlast ?S))"
    by (simp_all add: on_data_eq)
  have "\<not> sublist CRLF (buffer ?w1)"
    unfolding b1 by (rule last_split_CRLF_no_CRLF)
  then have ih: "deliver cs ?w1 =
     ?w1\<lparr>buffer := last (split_CRLF (buffer ?w1 @ ?r)),
       emitted := emitted ?w1 @ concat (map line_events (butlast (split_CRLF (buffer ?w1 @ ?r))))\<rparr>"
    by (rule Cons.IH)
  have app: "split_CRLF (buffer w @ toString_ascii (concat (c # cs))) = butlast ?S @ split_CRLF (last ?S @ ?r)"
    using split_CRLF_append [of "buffer w @ ?a" ?r] by (simp add: toString_ascii_def)
  have d: "deliver (c # cs) w = deliver cs ?w1"
    by (simp add: deliver_def)
  show ?case
    unfolding d ih app b1 e1
    by (simp add: on_data_eq butlast_append split_CRLF_nonempty)
qed

lemma deliver_Cons_eq:
  "deliver (c # cs) w =
     w\<lparr>buffer := last (split_CRLF (buffer w @ toString_ascii (concat (c # cs)))),
       emitted := emitted w @ concat (map line_events (butlast (split_CRLF (buffer w @ toString_ascii (concat (c # cs))))))\<rparr>"
proof -
  let ?a = "toString_ascii c" and ?r = "toString_ascii (concat cs)"
  let ?S = "split_CRLF (buffer w @ ?a)"
  let ?w1 = "on_data c w"
  have b1: "buffer ?w1 = last ?S" and e1: "emitted ?w1 = emitted w @ concat (map line_events (butlast ?S))"
    by (simp_all add: on_data_eq)
  have "\<not> sublist CRLF (buffer ?w1)"
    unfolding b1 by (rule last_split_CRLF_no_CRLF)
  then have ih: "deliver cs ?w1 =
     ?w1\<lparr>buffer := last (split_CRLF (buffer ?w1 @ ?r)),
       emitted := emitted ?w1 @ concat (map line_events (butlast (split_CRLF (buffer ?w1 @ ?r))))\<rparr>"
    by (rule deliver_eq)
  have app: "split_CRLF (buffer w @ toString_ascii (concat (c # cs))) = butlast ?S @ split_CRLF (last ?S @ ?r)"
    using split_CRLF_append [of "buffer w @ ?a" ?r] by (simp add: toString_ascii_def)
  have d: "deliver (c # cs) w = deliver cs ?w1"
    by (simp add: deliver_def)
  show ?thesis
    unfolding d ih app b1 e1
    by (simp add: on_data_eq butlast_append split_CRLF_nonempty)
qed

lemma tail_after_last_CRLF:
  "\<exists>consumed. s = consumed @ last (split_CRLF s) \<and> (consumed = [] \<or> suffix CRLF consumed)"
proof (cases "butlast (split_CRLF s) = []")
  case True
  then have "split_CRLF s = [last (split_CRLF s)]"
    by (metis append_Nil append_butlast_last_id split_CRLF_nonempty)
  then have "last (split_CRLF s) = s"
    by (rule split_CRLF_single)
  then show ?thesis by simp
next
  case False
  have "s = join_CRLF (butlast (split_CRLF s) @ [last (split_CRLF s)])"
    by (simp add: split_CRLF_nonempty join_split_CRLF)
  also have "\<dots> = (join_CRLF (butlast (split_CRLF s)) @ CRLF) @ last (split_CRLF s)"
    using False by (simp add: join_CRLF_snoc)
  finally show ?thesis
    by (metis suffix_def)
qed

subsection \<open>The line buffer\<close>

text \<open>
  Claim C6. After a processing pass of the data reaction, whatever passes came before it,
  the line buffer contains no CR LF, and the text received so far (the buffer the passes
  started from, followed by all the decoded chunks) is the buffer preceded by a consumed
  part that is empty or ends with CR LF: the buffer is exactly the unterminated tail
  after the last line terminator, and every complete line has been removed from it.
\<close>

theorem buffer_is_unterminated_tail:
  "\<not> sublist CRLF (buffer (on_data data (deliver chunks w))) \<and>
   (\<exists>consumed. buffer w @ toString_ascii (concat chunks @ data)
        = consumed @ buffer (on_data data (deliver chunks w)) \<and>
      (consumed = [] \<or> suffix CRLF consumed))"
proof -
  have d: "on_data data (deliver chunks w) = deliver (chunks @ [data]) w"
    by (simp add: deliver_def)
  obtain c cs where cs: "chunks @ [data] = c # cs"
    by (cases chunks) auto
  have b: "buffer (on_data data (deliver chunks w))
           = last (split_CRLF (buffer w @ toString_ascii (concat chunks @ data)))"
    unfolding d unfolding cs deliver_Cons_eq unfolding cs [symmetric] by simp
  show ?thesis
    unfolding b using last_split_CRLF_no_CRLF tail_after_last_CRLF by blast
qed

subsection \<open>Readings do not depend on the chunk boundaries\<close>

text \<open>
  Claim C2. Starting with a buffer that holds no complete line, the reading events
  emitted while a sequence of chunks is delivered are the events of the complete lines
  of the whole decoded byte sequence (all segments of its split but the last), one line
  after the other from left to right; so two ways to cut the same byte sequence into
  chunks emit the same sequence of readings. A line gives at most one event.
\<close>

theorem readings_independent_of_chunking:
  assumes "\<not> sublist CRLF (buffer w)"
  shows "emitted (deliver chunks w)
           = emitted w @ concat (map line_events
               (butlast (split_CRLF (buffer w @ toString_ascii (concat chunks))))) \<and>
         (concat chunks' = concat chunks \<longrightarrow> emitted (deliver chunks' w) = emitted (deliver chunks w)) \<and>
         length (line_events line) \<le> 1"
  using assms line_events_at_most_one [of line] by (simp add: deliver_eq)

text \<open>
  The example of the specification: however the two lines are cut into three chunks
  (and so also into one or two), the readings are 23.5 C and then -1.0 F.
\<close>

lemma split_two_lines: "split_CRLF (toString_ascii two_lines) = [''23.5C'', ''-1.0F'', []]"
  by (simp add: two_lines_def toString_ascii_def ascii_char_def CRLF_def CR_def LF_def)

lemma line_events_first: "line_events ''23.5C'' = [serialDataTemperature \<lparr>temperatureValue = Finite Plus 23.5, unit = ''C''\<rparr>]"
  by (simp add: line_eval number_eval)

lemma line_events_second: "line_events ''-1.0F'' = [serialDataTemperature \<lparr>temperatureValue = Finite Minus 1, unit = ''F''\<rparr>]"
  by (simp add: line_eval number_eval)

theorem readings_independent_of_chunking_witness:
  "\<forall>j k. emitted (deliver [take j two_lines, take k (drop j two_lines), drop k (drop j two_lines)] new_HH42)
     = [serialDataTemperature \<lparr>temperatureValue = Finite Plus 23.5, unit = ''C''\<rparr>,
        serialDataTemperature \<lparr>temperatureValue = Finite Minus 1, unit = ''F''\<rparr>]"
proof (intro allI)
  fix j k
  let ?chunks = "[take j two_lines, take k (drop j two_lines), drop k (drop j two_lines)]"
  have h: "\<not> sublist CRLF (buffer new_HH42)"
    by (simp add: new_HH42_def CRLF_def)
  have c: "concat ?chunks = two_lines"
    by (rule three_chunks)
  have e: "emitted new_HH42 = []" and b: "buffer new_HH42 = []"
    by (simp_all add: new_HH42_def)
  have "emitted (deliver ?chunks new_HH42)
        = emitted new_HH42 @ concat (map line_events
            (butlast (split_CRLF (buffer new_HH42 @ toString_ascii (concat ?chunks)))))"
    using readings_independent_of_chunking [OF h, of ?chunks] by (rule conjunct1)
  also have "\<dots> = line_events ''23.5C'' @ line_events ''-1.0F''"
    unfolding c e b append_Nil split_two_lines by simp
  finally show "emitted (deliver ?chunks new_HH42)
     = [serialDataTemperature \<lparr>temperatureValue = Finite Plus 23.5, unit = ''C''\<rparr>,
        serialDataTemperature \<lparr>temperatureValue = Finite Minus 1, unit = ''F''\<rparr>]"
    unfolding line_events_first line_events_second by simp
qed

subsection \<open>A line that arrives in two parts\<close>

text \<open>
  Claim C4. From an empty line buffer, the chunk \<open>12.3\<close> emits nothing and stays in the
  buffer; the chunk \<open>4C\<close> followed by CR LF then emits the single reading 12.34 C and
  leaves the buffer empty. The value is the number 12.34, that is, the binary64 nearest
  to 1234 / 100, which is 3473401212609495 / 2 ^ 48.
\<close>

theorem partial_line_buffering:
  "emitted (on_data ''12.3'' new_HH42) = [] \<and>
   buffer (on_data ''12.3'' new_HH42) = ''12.3'' \<and>
   emitted (on_data (''4C'' @ CRLF) (on_data ''12.3'' new_HH42))
     = [serialDataTemperature
          \<lparr>temperatureValue = Finite Plus (3473401212609495 / 2 ^ 48), unit = ''C''\<rparr>] \<and>
   buffer (on_data (''4C'' @ CRLF) (on_data ''12.3'' new_HH42)) = [] \<and>
   binary64 Plus 1234 100 = Finite Plus (3473401212609495 / 2 ^ 48)"
  by (simp add: on_data_eq toString_ascii_def ascii_char_def CRLF_def CR_def LF_def
      line_eval number_eval)

subsection \<open>From a line to a reading\<close>

lemma regex_test_One:
  "regex_test ((cls, One) # r) s \<longleftrightarrow> (\<exists>c rest. s = c # rest \<and> cls c \<and> regex_test r rest)"
  by (cases s) auto

lemma regex_test_Optional:
  "regex_test ((cls, Optional) # r) s \<longleftrightarrow>
     (\<exists>pre rest. s = pre @ rest \<and> at_most_one cls pre \<and> regex_test r rest)"
proof (cases s)
  case Nil
  then show ?thesis by (auto simp: at_most_one_def)
next
  case (Cons c cs)
  show ?thesis
  proof
    assume "regex_test ((cls, Optional) # r) s"
    then have "(cls c \<and> regex_test r cs) \<or> regex_test r (c # cs)"
      by (simp add: Cons)
    then show "\<exists>pre rest. s = pre @ rest \<and> at_most_one cls pre \<and> regex_test r rest"
    proof
      assume "cls c \<and> regex_test r cs"
      then have "s = [c] @ cs \<and> at_most_one cls [c] \<and> regex_test r cs"
        by (simp add: Cons at_most_one_def)
      then show ?thesis by blast
    next
      assume "regex_test r (c # cs)"
      then have "s = [] @ s \<and> at_most_one cls [] \<and> regex_test r s"
        by (simp add: Cons at_most_one_def)
      then show ?thesis by blast
    qed
  next
    assume "\<exists>pre rest. s = pre @ rest \<and> at_most_one cls pre \<and> regex_test r rest"
    then obtain pre rest where p: "s = pre @ rest" "at_most_one cls pre" "regex_test r rest"
      by blast
    show "regex_test ((cls, Optional) # r) s"
    proof (cases pre)
      case Nil
      with p Cons show ?thesis by auto
    next
      case (Cons a as)
      with p have "as = []" "cls a" by (auto simp: at_most_one_def)
      with p Cons \<open>s = c # cs\<close> show ?thesis by auto
    qed
  qed
qed

lemma regex_test_OneOrMore:
  "regex_test ((cls, OneOrMore) # r) s \<longleftrightarrow>
     (\<exists>ds rest. s = ds @ rest \<and> one_or_more cls ds \<and> regex_test r rest)"
proof (induction s)
  case Nil
  show ?case by (simp add: one_or_more_def)
next
  case (Cons c cs)
  show ?case
  proof
    assume "regex_test ((cls, OneOrMore) # r) (c # cs)"
    then have c: "cls c" and alt: "regex_test ((cls, OneOrMore) # r) cs \<or> regex_test r cs"
      by auto
    from alt show "\<exists>ds rest. c # cs = ds @ rest \<and> one_or_more cls ds \<and> regex_test r rest"
    proof
      assume "regex_test ((cls, OneOrMore) # r) cs"
      with Cons.IH obtain ds rest where "cs = ds @ rest" "one_or_more cls ds" "regex_test r rest"
        by blast
      with c have "c # cs = (c # ds) @ rest \<and> one_or_more cls (c # ds) \<and> regex_test r rest"
        by (simp add: one_or_more_def)
      then show ?thesis by blast
    next
      assume "regex_test r cs"
      with c have "c # cs = [c] @ cs \<and> one_or_more cls [c] \<and> regex_test r cs"
        by (simp add: one_or_more_def)
      then show ?thesis by blast
    qed
  next
    assume "\<exists>ds rest. c # cs = ds @ rest \<and> one_or_more cls ds \<and> regex_test r rest"
    then obtain ds rest where p: "c # cs = ds @ rest" "one_or_more cls ds" "regex_test r rest"
      by blast
    then obtain ds' where ds: "ds = c # ds'" and c: "cls c" and all: "list_all cls ds'"
      and cs: "cs = ds' @ rest"
      by (cases ds) (auto simp: one_or_more_def)
    show "regex_test ((cls, OneOrMore) # r) (c # cs)"
    proof (cases ds')
      case Nil
      with cs p c show ?thesis by simp
    next
      case (Cons a as)
      with all have "one_or_more cls ds'" by (simp add: one_or_more_def)
      with cs p have "regex_test ((cls, OneOrMore) # r) cs"
        using Cons.IH by blast
      with c show ?thesis by simp
    qed
  qed
qed

lemma regex_test_end: "regex_test [] s \<longleftrightarrow> s = []"
  by simp

lemma temperature_regex_unfold:
  "regex_test temperature_regex s \<longleftrightarrow>
     (\<exists>lead r1. s = lead @ r1 \<and> at_most_one (\<lambda>c. c = CHR ''-'' \<or> isWhitespace c) lead \<and>
      (\<exists>ip r2. r1 = ip @ r2 \<and> one_or_more isDigit ip \<and>
      (\<exists>c r3. r2 = c # r3 \<and> c = CHR ''.'' \<and>
      (\<exists>fp r4. r3 = fp @ r4 \<and> one_or_more isDigit fp \<and>
      (\<exists>ws r5. r4 = ws @ r5 \<and> at_most_one isWhitespace ws \<and>
      (\<exists>u r6. r5 = u @ r6 \<and> at_most_one (\<lambda>c. c = CHR ''C'' \<or> c = CHR ''F'') u \<and> r6 = []))))))"
  unfolding temperature_regex_def regex_test_Optional regex_test_OneOrMore regex_test_One regex_test_end
  by (rule refl)

lemma temperature_regex_iff: "regex_test temperature_regex s \<longleftrightarrow> matches_pattern s"
proof
  assume "regex_test temperature_regex s"
  then obtain lead r1 ip r2 c r3 fp r4 ws r5 u r6
    where eqs: "s = lead @ r1" "r1 = ip @ r2" "r2 = c # r3" "c = CHR ''.''" "r3 = fp @ r4"
        "r4 = ws @ r5" "r5 = u @ r6" "r6 = []"
      and parts: "at_most_one (\<lambda>c. c = CHR ''-'' \<or> isWhitespace c) lead"
        "one_or_more isDigit ip" "one_or_more isDigit fp"
        "at_most_one isWhitespace ws" "at_most_one (\<lambda>c. c = CHR ''C'' \<or> c = CHR ''F'') u"
    unfolding temperature_regex_unfold by (elim exE conjE)
  from eqs have "s = lead @ ip @ ''.'' @ fp @ ws @ u" by simp
  moreover from parts have "pattern_parts lead ip fp ws u"
    by (simp add: pattern_parts_def)
  ultimately show "matches_pattern s"
    unfolding matches_pattern_def by (intro exI conjI)
next
  assume "matches_pattern s"
  then obtain lead ip fp ws u
    where s: "s = lead @ ip @ ''.'' @ fp @ ws @ u" and p: "pattern_parts lead ip fp ws u"
    unfolding matches_pattern_def by (elim exE conjE)
  from s have s': "s = lead @ (ip @ CHR ''.'' # fp @ ws @ u @ [])" by simp
  from p have parts: "at_most_one (\<lambda>c. c = CHR ''-'' \<or> isWhitespace c) lead"
        "one_or_more isDigit ip" "one_or_more isDigit fp"
        "at_most_one isWhitespace ws" "at_most_one (\<lambda>c. c = CHR ''C'' \<or> c = CHR ''F'') u"
    by (simp_all add: pattern_parts_def)
  show "regex_test temperature_regex s"
    unfolding temperature_regex_unfold
    by (intro exI conjI) (rule s' refl parts)+
qed

lemma not_matches_prompt: "\<not> regex_test temperature_regex ''>''" "\<not> regex_test temperature_regex ''T''"
  by (simp_all add: temperature_regex_def isDigit_def isWhitespace_def)

lemma digit_not_whitespace: "isDigit c \<Longrightarrow> \<not> isWhitespace c"
  by (auto simp: isDigit_def isWhitespace_def)

lemma digit_not_special:
  "isDigit c \<Longrightarrow> c \<noteq> CHR ''-'' \<and> c \<noteq> CHR ''+'' \<and> c \<noteq> CHR ''I'' \<and> c \<noteq> CHR ''.''"
  by (auto simp: isDigit_def)

lemma takeWhile_all: "list_all P xs \<Longrightarrow> ys = [] \<or> \<not> P (hd ys) \<Longrightarrow> takeWhile P (xs @ ys) = xs"
  by (cases ys) (auto simp: list_all_iff takeWhile_append2)

lemma dropWhile_all: "list_all P xs \<Longrightarrow> ys = [] \<or> \<not> P (hd ys) \<Longrightarrow> dropWhile P (xs @ ys) = ys"
  by (cases ys) (auto simp: list_all_iff dropWhile_append2)

lemma after_number:
  assumes "at_most_one isWhitespace ws" "at_most_one (\<lambda>c. c = CHR ''C'' \<or> c = CHR ''F'') u"
  shows "ws @ u = [] \<or> \<not> isDigit (hd (ws @ u))" and "exponent_value (ws @ u) = 0"
proof -
  have "ws @ u = [] \<or> isWhitespace (hd (ws @ u)) \<or> hd (ws @ u) = CHR ''C'' \<or> hd (ws @ u) = CHR ''F''"
    using assms by (cases ws; cases u) (auto simp: at_most_one_def)
  then have h: "ws @ u = [] \<or>
      (\<not> isDigit (hd (ws @ u)) \<and> hd (ws @ u) \<noteq> CHR ''e'' \<and> hd (ws @ u) \<noteq> CHR ''E'')"
    by (auto simp: isDigit_def isWhitespace_def)
  then show "ws @ u = [] \<or> \<not> isDigit (hd (ws @ u))" by blast
  from h show "exponent_value (ws @ u) = 0"
    by (cases "ws @ u") (auto simp: exponent_value_def)
qed

lemma parseFloat_whitespace: "isWhitespace c \<Longrightarrow> parseFloat (c # s) = parseFloat s"
  by (simp add: parseFloat_def)

lemma parseFloat_unsigned:
  assumes ip: "one_or_more isDigit ip" and fp: "one_or_more isDigit fp"
    and r: "r = [] \<or> \<not> isDigit (hd r)" and e: "exponent_value r = 0"
  shows "parseFloat (ip @ ''.'' @ fp @ r) = binary64 Plus (digits_value (ip @ fp)) (10 ^ length fp)"
    and "parseFloat (''-'' @ ip @ ''.'' @ fp @ r)
           = binary64 Minus (digits_value (ip @ fp)) (10 ^ length fp)"
proof -
  let ?U = "ip @ ''.'' @ fp @ r"
  from ip obtain d ds where ipc: "ip = d # ds" and d: "isDigit d" and all_ip: "list_all isDigit ip"
    by (cases ip) (auto simp: one_or_more_def)
  from fp have all_fp: "list_all isDigit fp" and fpn: "fp \<noteq> []"
    by (simp_all add: one_or_more_def)
  have ipn: "(ip = []) = False"
    by (simp add: ipc)
  have t1: "takeWhile isDigit ?U = ip"
    by (rule takeWhile_all [OF all_ip]) (simp add: isDigit_def)
  have d1: "dropWhile isDigit ?U = ''.'' @ fp @ r"
    by (rule dropWhile_all [OF all_ip]) (simp add: isDigit_def)
  have k1: "(take 1 (''.'' @ fp @ r) = ''.'') = True" and k2: "drop 1 (''.'' @ fp @ r) = fp @ r"
    by simp_all
  have t2: "takeWhile isDigit (fp @ r) = fp"
    by (rule takeWhile_all [OF all_fp r])
  have d2: "dropWhile isDigit (fp @ r) = r"
    by (rule dropWhile_all [OF all_fp r])
  have w: "dropWhile isWhitespace ?U = ?U"
    using d by (simp add: ipc digit_not_whitespace)
  have n1: "(take 1 ?U = ''-'') = False" and n2: "(take 1 ?U = ''+'') = False"
    using digit_not_special [OF d] by (simp_all add: ipc)
  have inf: "(take 8 ?U = ''Infinity'') = False"
    using digit_not_special [OF d] by (simp add: ipc)
  have ex: "(0 \<le> 0 - int (length fp)) = False" and ex': "nat (- (0 - int (length fp))) = length fp"
    using fpn by simp_all
  show "parseFloat ?U = binary64 Plus (digits_value (ip @ fp)) (10 ^ length fp)"
    unfolding parseFloat_def Let_def w n1 n2 simp_thms if_False if_True inf t1 d1 k1 k2 t2 d2 e ipn
      ex ex'
    by simp
  have w': "dropWhile isWhitespace (''-'' @ ?U) = ''-'' @ ?U"
    by (simp add: isWhitespace_def)
  have u': "drop 1 (''-'' @ ?U) = ?U" and h': "(take 1 (''-'' @ ?U) = ''-'') = True"
    by simp_all
  show "parseFloat (''-'' @ ?U) = binary64 Minus (digits_value (ip @ fp)) (10 ^ length fp)"
    unfolding parseFloat_def Let_def w' h' u' simp_thms if_False if_True inf t1 d1 k1 k2 t2 d2 e ipn
      ex ex'
    by simp
qed

lemma parseFloat_parts:
  assumes "pattern_parts lead ip fp ws u"
  shows "parseFloat (lead @ ip @ ''.'' @ fp @ ws @ u) = decimal_value lead ip fp"
proof -
  from assms have ip: "one_or_more isDigit ip" and fp: "one_or_more isDigit fp"
    and ws: "at_most_one isWhitespace ws" and u: "at_most_one (\<lambda>c. c = CHR ''C'' \<or> c = CHR ''F'') u"
    and lead: "at_most_one (\<lambda>c. c = CHR ''-'' \<or> isWhitespace c) lead"
    by (simp_all add: pattern_parts_def)
  note pf = parseFloat_unsigned [OF ip fp after_number [OF ws u]]
  from lead consider "lead = []" | "lead = ''-''" | c where "lead = [c]" "isWhitespace c" "c \<noteq> CHR ''-''"
    by (cases lead) (auto simp: at_most_one_def)
  then show ?thesis
  proof cases
    case 1
    then show ?thesis using pf(1) by (simp add: decimal_value_def)
  next
    case 2
    then show ?thesis using pf(2) by (simp add: decimal_value_def)
  next
    case 3
    then show ?thesis using pf(1) by (simp add: decimal_value_def parseFloat_whitespace)
  qed
qed

lemma slice_last_parts:
  assumes "pattern_parts lead ip fp ws u" and "t = lead @ ip @ ''.'' @ fp @ ws @ u"
  shows "slice_last t = [last t]"
proof -
  from assms have "t \<noteq> []" by simp
  then show ?thesis
    unfolding slice_last_def by (metis append_butlast_last_id append_eq_conv_conj length_butlast)
qed

lemma process_line_cases:
  "process_line line w =
     (if matches_pattern (trim line)
      then emit (serialDataTemperature
               \<lparr>temperatureValue = parseFloat (trim line),
                unit = (if slice_last (trim line) = ''C'' \<or> slice_last (trim line) = ''F''
                        then slice_last (trim line) else [])\<rparr>) w
      else w)"
proof -
  have "trim line = ''>'' \<or> trim line = ''T'' \<Longrightarrow> \<not> regex_test temperature_regex (trim line)"
    using not_matches_prompt by auto
  then show ?thesis
    unfolding process_line_def Let_def temperature_regex_iff [symmetric] by auto
qed

text \<open>
  The pattern the code tests is narrower than the pattern of the claim: parts of the
  first are parts of the second.
\<close>

lemma pattern_parts_claimed: "pattern_parts lead ip fp ws u \<Longrightarrow> claimed_parts lead ip fp ws u"
proof -
  assume p: "pattern_parts lead ip fp ws u"
  then have "at_most_one (\<lambda>c. c = CHR ''-'' \<or> isWhitespace c) lead"
    by (simp add: pattern_parts_def)
  then have "lead = ''+'' \<or> lead = ''-'' \<or> list_all isWhitespace lead"
    by (cases lead) (auto simp: at_most_one_def)
  with p show ?thesis
    by (auto simp: pattern_parts_def claimed_parts_def at_most_one_def)
qed

text \<open>
  What \<open>parseFloat\<close> returns is a binary64: a decimal number that binary64 does not
  represent is rounded, a tie to the even neighbour; a negative zero keeps its sign; a
  value too large is an infinity and a value too small is zero.
\<close>

lemma parseFloat_rounds:
  "parseFloat ''0.1'' = Finite Plus (3602879701896397 / 2 ^ 55)"
  "parseFloat ''9007199254740993.0'' = Finite Plus 9007199254740992"
  "parseFloat ''9007199254740995.0'' = Finite Plus 9007199254740996"
  "parseFloat ''-0.0'' = Finite Minus 0"
  by (simp_all add: parseFloat_def isDigit_def isWhitespace_def digits_value_def exponent_value_def
      number_eval)

lemma binary64_overflow: "binary64 Plus (10 ^ 309) 1 = Infinity Plus"
  by (simp add: number_eval)

lemma binary64_underflow: "binary64 Minus 1 (10 ^ 331) = Finite Minus 0"
  by (simp add: number_eval)

text \<open>
  Against claim C1 as stated. \<open>+1.5\<close> is a sign, digits, a decimal point and digits, and
  \<open>1.5  C\<close> is digits, a decimal point, digits, white space and the unit letter: both are
  made of the parts of the claim's pattern and neither is \<open>>\<close> or \<open>T\<close>. The code takes
  only a minus for the sign and at most one white-space character before the unit, and
  emits no reading for either line.
\<close>

theorem plus_sign_and_two_spaces_not_read:
  "trim ''+1.5'' = ''+'' @ ''1'' @ ''.'' @ ''5'' @ [] @ [] \<and>
   claimed_parts ''+'' ''1'' ''5'' [] [] \<and>
   emitted (process_line ''+1.5'' new_HH42) = [] \<and>
   trim ''1.5  C'' = [] @ ''1'' @ ''.'' @ ''5'' @ ''  '' @ ''C'' \<and>
   claimed_parts [] ''1'' ''5'' ''  '' ''C'' \<and>
   emitted (process_line ''1.5  C'' new_HH42) = []"
  by (simp add: claimed_parts_def one_or_more_def at_most_one_def process_line_def trim_def
      isWhitespace_def temperature_regex_def isDigit_def new_HH42_def)

text \<open>
  Claim C1, amended. For a line, trimmed: if it is \<open>>\<close> or \<open>T\<close> the loop body changes
  nothing, so no reading is emitted; a line that does not match the pattern changes nothing
  either (\<open>abc\<close>, or \<open>12\<close> without a decimal point); an event is emitted exactly when the
  trimmed line matches the pattern the code tests: at most one leading minus or
  white-space character, one or more digits, a decimal point, one or more digits, at most
  one white-space character, at most one unit letter \<open>C\<close> or \<open>F\<close>. When the trimmed line
  is made of such parts, the one event emitted is a reading whose value is the standard
  decimal parse of the leading numeric portion, the binary64 number nearest to the decimal
  number written there, with its sign, and whose unit is \<open>C\<close> or \<open>F\<close> when that letter is
  the last character of the trimmed line, and empty otherwise.
\<close>

theorem line_reading:
  "(trim line = ''>'' \<or> trim line = ''T'' \<longrightarrow> process_line line w = w) \<and>
   (\<not> matches_pattern (trim line) \<longrightarrow> process_line line w = w) \<and>
   ((emitted (process_line line w) \<noteq> emitted w) = matches_pattern (trim line)) \<and>
   (trim line = lead @ ip @ ''.'' @ fp @ ws @ u \<and> pattern_parts lead ip fp ws u \<longrightarrow>
      process_line line w =
        emit (serialDataTemperature
               \<lparr>temperatureValue = decimal_value lead ip fp,
                unit = (if last (trim line) = CHR ''C'' then ''C''
                        else if last (trim line) = CHR ''F'' then ''F'' else [])\<rparr>) w)"
proof (intro conjI impI)
  assume "trim line = ''>'' \<or> trim line = ''T''"
  then show "process_line line w = w"
    by (auto simp: process_line_def)
next
  assume "\<not> matches_pattern (trim line)"
  then show "process_line line w = w"
    by (simp add: process_line_cases)
next
  show "(emitted (process_line line w) \<noteq> emitted w) = matches_pattern (trim line)"
    by (simp add: process_line_cases emit_def)
next
  assume a: "trim line = lead @ ip @ ''.'' @ fp @ ws @ u \<and> pattern_parts lead ip fp ws u"
  then have m: "matches_pattern (trim line)"
    unfolding matches_pattern_def by blast
  from a have v: "parseFloat (trim line) = decimal_value lead ip fp"
    by (simp only: parseFloat_parts)
  from a have l: "slice_last (trim line) = [last (trim line)]"
    by (intro slice_last_parts [of lead ip fp ws u]) simp_all
  show "process_line line w =
        emit (serialDataTemperature
               \<lparr>temperatureValue = decimal_value lead ip fp,
                unit = (if last (trim line) = CHR ''C'' then ''C''
                        else if last (trim line) = CHR ''F'' then ''F'' else [])\<rparr>) w"
    unfolding process_line_cases v l using m by simp
qed

theorem line_reading_witness:
  "process_line ('' 98.6 F'' @ [CR]) new_HH42 =
     emit (serialDataTemperature
            \<lparr>temperatureValue = Finite Plus (3469179087958835 / 2 ^ 45), unit = ''F''\<rparr>) new_HH42 \<and>
   process_line ''abc'' new_HH42 = new_HH42 \<and>
   process_line ''12'' new_HH42 = new_HH42"
proof -
  have t: "trim ('' 98.6 F'' @ [CR]) = [] @ ''98'' @ ''.'' @ ''6'' @ '' '' @ ''F''"
    by (simp add: trim_def isWhitespace_def CR_def)
  have p: "pattern_parts [] ''98'' ''6'' '' '' ''F''"
    by (simp add: pattern_parts_def at_most_one_def one_or_more_def isDigit_def isWhitespace_def)
  have v: "decimal_value [] ''98'' ''6'' = Finite Plus (3469179087958835 / 2 ^ 45)"
    by (simp add: decimal_value_def digits_value_def number_eval)
  have l: "last (trim ('' 98.6 F'' @ [CR])) = CHR ''F''"
    unfolding t by simp
  have n: "\<not> matches_pattern (trim ''abc'')" "\<not> matches_pattern (trim ''12'')"
    unfolding temperature_regex_iff [symmetric]
    by (simp_all add: trim_def isWhitespace_def temperature_regex_def isDigit_def)
  from line_reading [of "'' 98.6 F'' @ [CR]" new_HH42 "[]" "''98''" "''6''" "'' ''" "''F''"] t p
  have "process_line ('' 98.6 F'' @ [CR]) new_HH42 =
        emit (serialDataTemperature
               \<lparr>temperatureValue = decimal_value [] ''98'' ''6'',
                unit = (if last (trim ('' 98.6 F'' @ [CR])) = CHR ''C'' then ''C''
                        else if last (trim ('' 98.6 F'' @ [CR])) = CHR ''F'' then ''F'' else [])\<rparr>) new_HH42"
    by blast
  then have "process_line ('' 98.6 F'' @ [CR]) new_HH42 =
     emit (serialDataTemperature
            \<lparr>temperatureValue = Finite Plus (3469179087958835 / 2 ^ 45), unit = ''F''\<rparr>) new_HH42"
    unfolding v l by simp
  moreover from line_reading [of "''abc''" new_HH42] n(1) have "process_line ''abc'' new_HH42 = new_HH42"
    by blast
  moreover from line_reading [of "''12''" new_HH42] n(2) have "process_line ''12'' new_HH42 = new_HH42"
    by blast
  ultimately show ?thesis by blast
qed

subsection \<open>The methods on the state\<close>

lemma stopTemperatureReading_eq:
  "stopTemperatureReading w =
     w\<lparr>intervals := filter (\<lambda>t. Some (handle t) \<noteq> readingInterval w) (intervals w),
       readingInterval := None\<rparr>"
  by (cases "readingInterval w") (simp_all add: stopTemperatureReading_def clearInterval_def)

lemma initializeSerialPort_eq:
  "initializeSerialPort portName options w =
     w\<lparr>portTemperature := Some (length (ports w)),
       readingInterval := None,
       intervals := filter (\<lambda>t. Some (handle t) \<noteq> readingInterval w) (intervals w),
       ports := (if portTemperature_isOpen w
                 then (ports w)[the (portTemperature w) := (ports w ! the (portTemperature w))\<lparr>status := Closed\<rparr>]
                 else ports w)
         @ [\<lparr>path = portName,
              baudRate = or_number (opt_baudRate options) 9600,
              dataBits = or_number (opt_dataBits options) 8,
              stopBits = or_number (opt_stopBits options) 1,
              parity = or_string (opt_parity options) ''none'',
              status = Opening, rts = False\<rparr>]\<rparr>"
  by (cases "portTemperature w")
     (simp_all add: initializeSerialPort_def Let_def stopTemperatureReading_eq portTemperature_isOpen_def
      port_close_def new_SerialPort_def)

lemma on_open_buffer: "buffer (on_open n w) = buffer w"
  by (simp add: on_open_def emit_def requestTemperatureReading_def setInterval_def enterHostMode_def
      port_set_rts_def console_print_def split: prod.splits)

lemma port_opens_buffer: "buffer (port_opens p w) = buffer w"
  by (simp add: port_opens_def on_open_buffer)

lemma port_opens_eq:
  assumes "p < length (ports w)" "status (ports w ! p) = Opening" "portTemperature w = Some p"
  shows "port_opens p w =
     w\<lparr>ports := (ports w)[p := (ports w ! p)\<lparr>status := Open, rts := True\<rparr>],
       console := console w @ [''Port opened successfully''],
       intervals := intervals w @ [\<lparr>handle = handles w, delay = 524, due = now w + 524\<rparr>],
       handles := handles w + 1,
       readingInterval := Some (handles w),
       emitted := emitted w @ [portOpenedTemperature (path (ports w ! p))]\<rparr>"
  using assms
  by (simp add: port_opens_def on_open_def emit_def requestTemperatureReading_def setInterval_def
        enterHostMode_def port_set_rts_def console_print_def portTemperature_isOpen_def isOpen_def)

lemma opened_eq:
  "opened =
     \<lparr>portTemperature = Some 0, buffer = [], readingInterval = Some 0,
      ports = [\<lparr>path = ''COM1'', baudRate = 9600, dataBits = 8, stopBits = 1, parity = ''none'',
                status = Open, rts = True\<rparr>],
      intervals = [\<lparr>handle = 0, delay = 524, due = 524\<rparr>], handles = 1, now = 0,
      emitted = [portOpenedTemperature ''COM1''], written = [],
      console = [''Port opened successfully'']\<rparr>"
  by (simp add: opened_def initializeSerialPort_eq no_options_def new_HH42_def portTemperature_isOpen_def
      or_number_def or_string_def port_opens_eq)

text \<open>
  What the teardown at the head of \<open>initializeSerialPort\<close> achieves: no handle is stored,
  the timer whose handle was stored is no longer active, and the connection that was
  current does not report open: one that was open has been closed, one that was still
  opening is left as it is.
\<close>

lemma initializeSerialPort_teardown:
  "readingInterval (initializeSerialPort portName options w) = None \<and>
   (\<forall>i \<in> set (intervals (initializeSerialPort portName options w)).
      Some (handle i) \<noteq> readingInterval w) \<and>
   (portTemperature w = Some p \<and> p < length (ports w) \<longrightarrow>
      \<not> isOpen (ports (initializeSerialPort portName options w) ! p))"
  by (auto simp: initializeSerialPort_eq portTemperature_isOpen_def isOpen_def nth_append)

text \<open>Time passing: with no timer due, with one timer due, with a single timer.\<close>

lemma millisecond_idle:
  assumes "\<forall>i \<in> set (intervals w). due i \<noteq> now w + 1"
  shows "millisecond w = w\<lparr>now := now w + 1\<rparr>"
proof -
  have f: "filter (\<lambda>i. due i = now w + 1) (intervals w) = []"
    using assms by (simp add: filter_empty_conv)
  have m: "map (\<lambda>i. if due i = now w + 1 then i\<lparr>due := now w + 1 + delay i\<rparr> else i) (intervals w)
           = intervals w"
    using assms by (simp add: map_idI)
  show ?thesis
    unfolding millisecond_def Let_def f m by simp
qed

lemma elapse_idle:
  "\<forall>i \<in> set (intervals w). now w + d < due i \<Longrightarrow> elapse d w = w\<lparr>now := now w + d\<rparr>"
proof (induction d arbitrary: w)
  case 0
  show ?case by simp
next
  case (Suc d)
  then have "\<forall>i \<in> set (intervals w). due i \<noteq> now w + 1"
    by auto
  then have m: "millisecond w = w\<lparr>now := now w + 1\<rparr>"
    by (rule millisecond_idle)
  have "elapse d (w\<lparr>now := now w + 1\<rparr>) = (w\<lparr>now := now w + 1\<rparr>)\<lparr>now := now (w\<lparr>now := now w + 1\<rparr>) + d\<rparr>"
    using Suc.prems by (intro Suc.IH) auto
  then show ?case
    by (simp add: m)
qed

lemma elapse_add: "elapse (a + b) w = elapse b (elapse a w)"
  by (induction a arbitrary: w) simp_all

lemma millisecond_fire:
  assumes "intervals w = [\<lparr>handle = h, delay = D, due = now w + 1\<rparr>]" "portTemperature w = Some p"
  shows "millisecond w =
     w\<lparr>now := now w + 1,
       written := written w @ [(now w + 1, p, ''T'' @ CRLF)],
       intervals := [\<lparr>handle = h, delay = D, due = now w + 1 + D\<rparr>]\<rparr>"
  using assms by (simp add: millisecond_def Let_def poll_def port_write_def)

lemma elapse_single_timer:
  assumes "intervals w = [\<lparr>handle = h, delay = D, due = u\<rparr>]" "portTemperature w = Some p"
    and "now w < u" "0 < D"
  shows "written (elapse d w) =
           written w @ map (\<lambda>j. (u + D * j, p, ''T'' @ CRLF))
                          [0..<(if now w + d < u then 0 else (now w + d - u) div D + 1)] \<and>
         portTemperature (elapse d w) = Some p \<and>
         readingInterval (elapse d w) = readingInterval w \<and>
         (\<exists>u'. intervals (elapse d w) = [\<lparr>handle = h, delay = D, due = u'\<rparr>])"
  using assms
proof (induction d arbitrary: w u)
  case 0
  then show ?case by simp
next
  case (Suc d)
  show ?case
  proof (cases "u = now w + 1")
    case True
    let ?w1 = "millisecond w"
    have m: "?w1 = w\<lparr>now := now w + 1,
       written := written w @ [(now w + 1, p, ''T'' @ CRLF)],
       intervals := [\<lparr>handle = h, delay = D, due = now w + 1 + D\<rparr>]\<rparr>"
      using Suc.prems True by (intro millisecond_fire) simp_all
    have ih: "written (elapse d ?w1) =
           written ?w1 @ map (\<lambda>j. (u + D + D * j, p, ''T'' @ CRLF))
                          [0..<(if now ?w1 + d < u + D then 0 else (now ?w1 + d - (u + D)) div D + 1)] \<and>
         portTemperature (elapse d ?w1) = Some p \<and>
         readingInterval (elapse d ?w1) = readingInterval ?w1 \<and>
         (\<exists>u'. intervals (elapse d ?w1) = [\<lparr>handle = h, delay = D, due = u'\<rparr>])"
      using Suc.prems True by (intro Suc.IH) (simp_all add: m)
    have k: "(if now w + Suc d < u then 0 else (now w + Suc d - u) div D + 1)
             = Suc (if now ?w1 + d < u + D then 0 else (now ?w1 + d - (u + D)) div D + 1)"
      using True \<open>0 < D\<close> by (simp add: m le_div_geq)
    have sh: "\<And>n. map (\<lambda>j. (u + D * j, p, ''T'' @ CRLF)) [0..<Suc n]
              = (u, p, ''T'' @ CRLF) # map (\<lambda>j. (u + D + D * j, p, ''T'' @ CRLF)) [0..<n]"
      by (simp add: map_upt_Suc add.assoc del: upt_Suc)
    show ?thesis
      unfolding elapse.simps k sh using ih True by (simp add: m)
  next
    case False
    let ?w1 = "millisecond w"
    have m: "?w1 = w\<lparr>now := now w + 1\<rparr>"
      using Suc.prems False by (intro millisecond_idle) simp
    have ih: "written (elapse d ?w1) =
           written ?w1 @ map (\<lambda>j. (u + D * j, p, ''T'' @ CRLF))
                          [0..<(if now ?w1 + d < u then 0 else (now ?w1 + d - u) div D + 1)] \<and>
         portTemperature (elapse d ?w1) = Some p \<and>
         readingInterval (elapse d ?w1) = readingInterval ?w1 \<and>
         (\<exists>u'. intervals (elapse d ?w1) = [\<lparr>handle = h, delay = D, due = u'\<rparr>])"
      using Suc.prems False by (intro Suc.IH) (simp_all add: m)
    show ?thesis
      unfolding elapse.simps using ih by (simp add: m)
  qed
qed

subsection \<open>Stopping the poll timer\<close>

text \<open>
  Claim C7. \<open>stopTemperatureReading\<close> clears the stored handle and cancels the timer with
  that handle; with no stored handle it changes nothing; in every case nothing but the
  handle and the set of active timers changes: the current connection, every port
  (none is closed) and the line buffer are as before.
\<close>

theorem stop_only_cancels_timer:
  "readingInterval (stopTemperatureReading w) = None \<and>
   intervals (stopTemperatureReading w)
     = filter (\<lambda>t. Some (handle t) \<noteq> readingInterval w) (intervals w) \<and>
   (readingInterval w = None \<longrightarrow> stopTemperatureReading w = w) \<and>
   portTemperature (stopTemperatureReading w) = portTemperature w \<and>
   ports (stopTemperatureReading w) = ports w \<and>
   buffer (stopTemperatureReading w) = buffer w \<and>
   stopTemperatureReading w
     = w\<lparr>intervals := intervals (stopTemperatureReading w), readingInterval := None\<rparr>"
  by (cases "readingInterval w") (simp_all add: stopTemperatureReading_def clearInterval_def)

theorem stop_only_cancels_timer_witness:
  "stopTemperatureReading new_HH42 = new_HH42 \<and>
   intervals (stopTemperatureReading opened) = [] \<and>
   readingInterval (stopTemperatureReading opened) = None \<and>
   ports (stopTemperatureReading opened) = ports opened \<and>
   buffer (stopTemperatureReading opened) = buffer opened"
proof -
  have "readingInterval new_HH42 = None"
    by (simp add: new_HH42_def)
  with stop_only_cancels_timer [of new_HH42] have "stopTemperatureReading new_HH42 = new_HH42"
    by blast
  moreover have "filter (\<lambda>t. Some (handle t) \<noteq> readingInterval opened) (intervals opened) = []"
    by (simp add: opened_eq)
  with stop_only_cancels_timer [of opened] have "intervals (stopTemperatureReading opened) = []"
    by simp
  ultimately show ?thesis
    using stop_only_cancels_timer [of opened] by blast
qed

subsection \<open>Defaults of the configuration\<close>

text \<open>
  Claim C10. \<open>initializeSerialPort\<close> makes the port it creates the current connection,
  and an option passed with a falsy value is replaced by its default in that port's
  configuration: baud rate 0 by 9600, data bits 0 by 8, stop bits 0 by 1 and the empty
  parity by \<open>none\<close>.
\<close>

theorem falsy_options_are_defaulted:
  "portTemperature (initializeSerialPort portName options w) = Some (length (ports w)) \<and>
   length (ports (initializeSerialPort portName options w)) = Suc (length (ports w)) \<and>
   (opt_baudRate options = Some 0 \<longrightarrow>
      baudRate (ports (initializeSerialPort portName options w) ! length (ports w)) = 9600) \<and>
   (opt_dataBits options = Some 0 \<longrightarrow>
      dataBits (ports (initializeSerialPort portName options w) ! length (ports w)) = 8) \<and>
   (opt_stopBits options = Some 0 \<longrightarrow>
      stopBits (ports (initializeSerialPort portName options w) ! length (ports w)) = 1) \<and>
   (opt_parity options = Some [] \<longrightarrow>
      parity (ports (initializeSerialPort portName options w) ! length (ports w)) = ''none'')"
  by (simp add: initializeSerialPort_eq nth_append or_number_def or_string_def)

theorem falsy_options_are_defaulted_witness:
  "ports (initializeSerialPort ''COM1'' falsy_options new_HH42) ! 0
     = \<lparr>path = ''COM1'', baudRate = 9600, dataBits = 8, stopBits = 1, parity = ''none'',
        status = Opening, rts = False\<rparr>"
proof -
  have o: "opt_baudRate falsy_options = Some 0" "opt_dataBits falsy_options = Some 0"
    "opt_stopBits falsy_options = Some 0" "opt_parity falsy_options = Some []"
    by (simp_all add: falsy_options_def)
  have l: "length (ports new_HH42) = 0"
    by (simp add: new_HH42_def)
  let ?p = "ports (initializeSerialPort ''COM1'' falsy_options new_HH42) ! 0"
  from falsy_options_are_defaulted [of "''COM1''" falsy_options new_HH42] o
  have "baudRate ?p = 9600 \<and> dataBits ?p = 8 \<and> stopBits ?p = 1 \<and> parity ?p = ''none''"
    unfolding l by blast
  moreover have "path ?p = ''COM1'' \<and> status ?p = Opening \<and> rts ?p = False"
    by (simp add: initializeSerialPort_eq new_HH42_def portTemperature_isOpen_def)
  ultimately show ?thesis by simp
qed

subsection \<open>Listing the ports\<close>

text \<open>
  Claim C8. When the list of ports arrives, \<open>getAvailablePorts\<close> resolves to the paths of
  the ports; when the query fails it resolves to the empty list; and however the query
  settles the promise of \<open>getAvailablePorts\<close> is fulfilled, never rejected.
\<close>

theorem getAvailablePorts_never_rejects:
  "fst (getAvailablePorts (Fulfilled infos)) = Fulfilled (map info_path infos) \<and>
   fst (getAvailablePorts (Rejected err)) = Fulfilled [] \<and>
   (\<exists>paths. fst (getAvailablePorts listed) = Fulfilled paths)"
  by (cases listed) (simp_all add: getAvailablePorts_def)

subsection \<open>The buffer across a new initialisation\<close>

text \<open>
  Claim C9. \<open>initializeSerialPort\<close> leaves the line buffer as it is, and so does the
  opening of the new port; the first data received on the new port is therefore split
  after the old content of the buffer, which is the beginning of its first line.
\<close>

theorem initialize_keeps_buffer:
  "buffer (initializeSerialPort portName options w) = buffer w \<and>
   buffer (port_opens (length (ports w)) (initializeSerialPort portName options w)) = buffer w \<and>
   emitted (port_receives (length (ports w)) data
             (port_opens (length (ports w)) (initializeSerialPort portName options w)))
     = emitted w @ [portOpenedTemperature portName]
         @ concat (map line_events (butlast (split_CRLF (buffer w @ toString_ascii data))))"
proof -
  let ?w1 = "initializeSerialPort portName options w"
  let ?p = "length (ports w)"
  let ?w2 = "port_opens ?p ?w1"
  have b1: "buffer ?w1 = buffer w"
    by (simp add: initializeSerialPort_eq)
  have b2: "buffer ?w2 = buffer w"
    by (simp add: port_opens_buffer b1)
  have e1: "emitted ?w1 = emitted w"
    by (simp add: initializeSerialPort_eq)
  have len: "?p < length (ports ?w1)" and st: "status (ports ?w1 ! ?p) = Opening"
    and pa: "path (ports ?w1 ! ?p) = portName"
    by (simp_all add: initializeSerialPort_eq nth_append)
  have e2: "emitted ?w2 = emitted w @ [portOpenedTemperature portName]"
    using len st pa e1
    by (simp add: port_opens_def on_open_def emit_def requestTemperatureReading_def setInterval_def
        enterHostMode_def port_set_rts_def console_print_def split: prod.splits)
  have o: "?p < length (ports ?w2) \<and> isOpen (ports ?w2 ! ?p)"
    using len st
    by (simp add: port_opens_def on_open_def emit_def requestTemperatureReading_def setInterval_def
        enterHostMode_def port_set_rts_def console_print_def portTemperature_isOpen_def isOpen_def
        initializeSerialPort_eq split: prod.splits)
  then have "port_receives ?p data ?w2 = on_data data ?w2"
    by (simp add: port_receives_def)
  then show ?thesis
    by (simp add: b1 b2 e2 on_data_eq)
qed

text \<open>
  For example: \<open>12.3\<close> is left over from the first port; after a new initialisation the
  second port delivers \<open>4C\<close> CR LF, and the reading is 12.34 C.
\<close>

lemma line_events_joined:
  "line_events ''12.34C''
     = [serialDataTemperature
          \<lparr>temperatureValue = Finite Plus (3473401212609495 / 2 ^ 48), unit = ''C''\<rparr>]"
  by (simp add: line_eval number_eval)

theorem initialize_keeps_buffer_witness:
  "emitted (port_receives 1 (''4C'' @ CRLF)
             (port_opens 1 (initializeSerialPort ''COM2'' no_options (on_data ''12.3'' opened))))
     = [portOpenedTemperature ''COM1'', portOpenedTemperature ''COM2'',
        serialDataTemperature
          \<lparr>temperatureValue = Finite Plus (3473401212609495 / 2 ^ 48), unit = ''C''\<rparr>]"
proof -
  let ?w = "on_data ''12.3'' opened"
  have w: "buffer ?w = ''12.3''" "emitted ?w = [portOpenedTemperature ''COM1'']" "length (ports ?w) = 1"
    by (simp_all add: on_data_eq opened_eq toString_ascii_def ascii_char_def CR_def LF_def)
  have s2: "split_CRLF (''12.3'' @ toString_ascii (''4C'' @ CRLF)) = [''12.34C'', []]"
    by (simp add: toString_ascii_def ascii_char_def CRLF_def CR_def LF_def)
  from initialize_keeps_buffer [of "''COM2''" no_options ?w "''4C'' @ CRLF"]
  have "emitted (port_receives 1 (''4C'' @ CRLF)
             (port_opens 1 (initializeSerialPort ''COM2'' no_options ?w)))
     = [portOpenedTemperature ''COM1''] @ [portOpenedTemperature ''COM2'']
         @ concat (map line_events (butlast (split_CRLF (''12.3'' @ toString_ascii (''4C'' @ CRLF)))))"
    unfolding w by blast
  then show ?thesis
    unfolding s2 by (simp add: line_events_joined)
qed

subsection \<open>The poll cadence\<close>

text \<open>
  Against claim C3 as stated: when the port of \<open>opened\<close> has finished opening no write has
  been made, none is made during the next 523 milliseconds, and the first one is made at
  524 milliseconds.
\<close>

theorem no_write_at_open:
  "written opened = [] \<and>
   written (elapse 523 opened) = [] \<and>
   written (elapse 524 opened) = [(524, 0, ''T'' @ CRLF)]"
proof -
  have i: "elapse 523 opened = opened\<lparr>now := now opened + 523\<rparr>"
    by (rule elapse_idle) (simp add: opened_eq)
  have "elapse 524 opened = elapse 1 (elapse 523 opened)"
    using elapse_add [of 523 1 opened] by simp
  also have "\<dots> = millisecond (opened\<lparr>now := now opened + 523\<rparr>)"
    unfolding i by simp
  finally have "written (elapse 524 opened) = [(524, 0, ''T'' @ CRLF)]"
    by (simp add: opened_eq millisecond_def poll_def port_write_def)
  moreover have "written (elapse 523 opened) = []"
    unfolding i by (simp add: opened_eq)
  moreover have "written opened = []"
    by (simp add: opened_eq)
  ultimately show ?thesis by blast
qed

text \<open>
  Claim C3, amended. When the current connection finishes opening and no other timer is
  active, the open reaction writes nothing; after \<open>d\<close> milliseconds the writes made are
  one \<open>T\<close> CR LF at every multiple of 524 milliseconds after the opening, the first at
  524; and once \<open>stopTemperatureReading\<close> is called no further write is made, however
  long one waits.
\<close>

theorem poll_cadence:
  assumes "p < length (ports w)" and "status (ports w ! p) = Opening"
    and "portTemperature w = Some p" and "intervals w = []"
  shows "written (port_opens p w) = written w \<and>
         written (elapse d (port_opens p w))
           = written w @ map (\<lambda>j. (now w + 524 * Suc j, p, ''T'' @ CRLF)) [0..<d div 524] \<and>
         written (elapse d' (stopTemperatureReading (elapse d (port_opens p w))))
           = written (elapse d (port_opens p w))"
proof -
  let ?w1 = "port_opens p w"
  note eq = port_opens_eq [OF assms(1-3)]
  have i: "intervals ?w1 = [\<lparr>handle = handles w, delay = 524, due = now w + 524\<rparr>]"
    and pt: "portTemperature ?w1 = Some p" and n: "now ?w1 = now w"
    and wr: "written ?w1 = written w" and ri: "readingInterval ?w1 = Some (handles w)"
    using assms(3,4) by (simp_all add: eq)
  have lt: "now ?w1 < now w + 524" and pos: "(0::nat) < 524"
    by (simp_all add: n)
  note single = elapse_single_timer [OF i pt lt pos, of d]
  have k: "(if now ?w1 + d < now w + 524 then 0 else (now ?w1 + d - (now w + 524)) div 524 + 1)
           = d div 524"
    unfolding n by (simp add: le_div_geq)
  have cadence: "written (elapse d ?w1)
           = written w @ map (\<lambda>j. (now w + 524 * Suc j, p, ''T'' @ CRLF)) [0..<d div 524]"
    using single unfolding k wr by simp
  let ?w2 = "stopTemperatureReading (elapse d ?w1)"
  from single obtain u' where iv: "intervals (elapse d ?w1) = [\<lparr>handle = handles w, delay = 524, due = u'\<rparr>]"
    by blast
  from single have r: "readingInterval (elapse d ?w1) = Some (handles w)"
    unfolding ri by blast
  have "intervals ?w2 = []" and w2: "written ?w2 = written (elapse d ?w1)"
    by (simp_all add: stopTemperatureReading_eq iv r)
  then have "elapse d' ?w2 = ?w2\<lparr>now := now ?w2 + d'\<rparr>"
    by (intro elapse_idle) simp
  then have "written (elapse d' ?w2) = written (elapse d ?w1)"
    by (simp add: w2)
  with cadence wr show ?thesis by blast
qed

theorem poll_cadence_witness:
  "written (elapse 1100 opened) = [(524, 0, ''T'' @ CRLF), (1048, 0, ''T'' @ CRLF)] \<and>
   written (elapse 5000 (stopTemperatureReading (elapse 1100 opened)))
     = [(524, 0, ''T'' @ CRLF), (1048, 0, ''T'' @ CRLF)]"
proof -
  let ?w = "initializeSerialPort ''COM1'' no_options new_HH42"
  have w: "?w = \<lparr>portTemperature = Some 0, buffer = [], readingInterval = None,
      ports = [\<lparr>path = ''COM1'', baudRate = 9600, dataBits = 8, stopBits = 1, parity = ''none'',
                status = Opening, rts = False\<rparr>],
      intervals = [], handles = 0, now = 0, emitted = [], written = [], console = []\<rparr>"
    by (simp add: initializeSerialPort_eq no_options_def new_HH42_def portTemperature_isOpen_def
      or_number_def or_string_def)
  have h: "0 < length (ports ?w)" "status (ports ?w ! 0) = Opening" "portTemperature ?w = Some 0"
    "intervals ?w = []"
    unfolding w by simp_all
  have u: "[0..<1100 div 524] = [0, 1]"
    by (simp add: upt_rec)
  from poll_cadence [OF h, of 1100 5000] show ?thesis
    unfolding opened_def [symmetric] u by (simp add: w)
qed

subsection \<open>Two initialisations in succession\<close>

text \<open>
  Claim C5 fails on the code. When \<open>initializeSerialPort\<close> is called a second time before
  the first port has finished opening, the first port is not closed, so both ports end up
  open, whichever opens first; and if the second opens first, both open reactions start a
  timer on the current connection: two timers are active, \<open>stopTemperatureReading\<close>
  cancels only the one whose handle is stored, and every period two commands are written.
\<close>

theorem two_timers_after_two_initializations:
  "length (intervals twice) = 2 \<and>
   length (filter isOpen (ports twice)) = 2 \<and>
   length (intervals (stopTemperatureReading twice)) = 1 \<and>
   length (filter isOpen (ports twice_in_order)) = 2 \<and>
   written (elapse 524 twice) = [(524, 1, ''T'' @ CRLF), (524, 1, ''T'' @ CRLF)]"
proof -
  have t: "twice =
     \<lparr>portTemperature = Some 1, buffer = [], readingInterval = Some 1,
      ports = [\<lparr>path = ''COM1'', baudRate = 9600, dataBits = 8, stopBits = 1, parity = ''none'',
                status = Open, rts = False\<rparr>,
               \<lparr>path = ''COM2'', baudRate = 9600, dataBits = 8, stopBits = 1, parity = ''none'',
                status = Open, rts = True\<rparr>],
      intervals = [\<lparr>handle = 0, delay = 524, due = 524\<rparr>, \<lparr>handle = 1, delay = 524, due = 524\<rparr>],
      handles = 2, now = 0,
      emitted = [portOpenedTemperature ''COM2'', portOpenedTemperature ''COM1''], written = [],
      console = [''Port opened successfully'', ''Port opened successfully'']\<rparr>"
    by (simp add: twice_def initializeSerialPort_eq no_options_def new_HH42_def portTemperature_isOpen_def
      or_number_def or_string_def port_opens_def on_open_def emit_def requestTemperatureReading_def
      setInterval_def enterHostMode_def port_set_rts_def console_print_def isOpen_def)
  have i: "elapse 523 twice = twice\<lparr>now := now twice + 523\<rparr>"
    by (rule elapse_idle) (simp add: t)
  have "elapse 524 twice = elapse 1 (elapse 523 twice)"
    using elapse_add [of 523 1 twice] by simp
  also have "\<dots> = millisecond (twice\<lparr>now := now twice + 523\<rparr>)"
    unfolding i by simp
  finally have "written (elapse 524 twice) = [(524, 1, ''T'' @ CRLF), (524, 1, ''T'' @ CRLF)]"
    by (simp add: t millisecond_def poll_def port_write_def)
  moreover have "length (intervals twice) = 2" "length (filter isOpen (ports twice)) = 2"
    "length (intervals (stopTemperatureReading twice)) = 1"
    by (simp_all add: t isOpen_def stopTemperatureReading_eq)
  moreover have "length (filter isOpen (ports twice_in_order)) = 2"
    by (simp add: twice_in_order_def initializeSerialPort_eq no_options_def new_HH42_def
      portTemperature_isOpen_def or_number_def or_string_def port_opens_def on_open_def emit_def
      requestTemperatureReading_def setInterval_def enterHostMode_def port_set_rts_def
      console_print_def isOpen_def)
  ultimately show ?thesis by blast
qed

end
